theory Spec2Isabelle
  imports Complex_Main "HOL-Library.AList" "HOL-Library.Char_ord" "HOL-Library.List_Lexorder"
    "HOL-Library.Sublist" "HOL-Library.Multiset"
begin


section \<open>The CloudWatch response parser (pkg/tsdb/cloudwatch/response_parser.go)\<close>

text \<open>
  The development embeds \<^verbatim>\<open>parseResponse\<close>, \<^verbatim>\<open>parseGetMetricDataTimeSeries\<close> and
  \<^verbatim>\<open>formatAlias\<close>. Conventions of the embedding:
  \<^item> a Go string is a \<open>string\<close> (a list of bytes); \<^verbatim>\<open>*string\<close> fields of the AWS SDK
    are taken to be non-nil;
  \<^item> a \<^verbatim>\<open>*time.Time\<close> is an \<open>int\<close>, the whole seconds since the epoch, and the
    \<^verbatim>\<open>float64\<close> millisecond column is the \<open>int\<close> \<open>1000 * t\<close>;
  \<^item> a \<^verbatim>\<open>*float64\<close> sample is a \<open>real option\<close>, \<open>None\<close> being the nil pointer; samples
    are only copied, never computed with;
  \<^item> a run-time panic and a returned \<^verbatim>\<open>error\<close> are both values of \<open>failure\<close>, told
    apart by their constructor;
  \<^item> a Go map whose keys are enumerated is an association list with distinct keys; the
    order in which \<^verbatim>\<open>range\<close> visits a map is not fixed by the language, so every such
    order is a parameter of the function that iterates;
  \<^item> the fragments of the batches are distinct objects, as the SDK decodes them: the
    merge appends to the first fragment of a pair in place, which no other fragment
    observes;
  \<^item> Go's \<^verbatim>\<open>int\<close>, \<^verbatim>\<open>int64\<close> and \<^verbatim>\<open>time.Duration\<close> arithmetic is done on unbounded
    integers: periods and timestamps of the calendar are far from the 64-bit bounds, and
    their milliseconds are exact in a \<^verbatim>\<open>float64\<close>.
\<close>

subsection \<open>Failures\<close>

datatype panic = NilPointerDereference | IndexOutOfRange | SliceBoundsOutOfRange

datatype failure =
    Panic panic
  | ArithmeticError string string
    \<comment> \<open>\<^verbatim>\<open>fmt.Errorf("ArithmeticError in query %q: %s", query.RefId, *message.Value)\<close>:
        the refId and the message text\<close>

fun is_error_value :: "failure \<Rightarrow> bool" where
  "is_error_value (Panic p) = False"
| "is_error_value (ArithmeticError refId text) = True"

subsection \<open>Data\<close>

record message =
  Code :: string
  Value :: string

record metricDataResult =
  ResultId :: string
  Label :: string
  Timestamps :: "int list"
  Values :: "real option list"
  StatusCode :: string
  Messages :: "message list"

record getMetricDataOutput =
  OutputMessages :: "message list"
  MetricDataResults :: "metricDataResult list"

text \<open>
  Modelled from the spec: the struct \<^verbatim>\<open>cloudWatchQuery\<close> and its four classification
  methods are not among the sources. The fields are those the parser reads; the methods
  \<^verbatim>\<open>isMathExpression\<close>, \<^verbatim>\<open>isUserDefinedSearchExpression\<close>, \<^verbatim>\<open>isInferredSearchExpression\<close> and
  \<^verbatim>\<open>isMultiValuedDimensionExpression\<close> ("classification flags, derived, pure functions of
  expression/dimensions") are given with the query as four booleans.
\<close>

record cloudWatchQuery =
  RefId :: string
  Region :: string
  QueryId :: string
  Namespace :: string
  MetricName :: string
  Stats :: string
  Expression :: string
  UsedExpression :: string
  Dimensions :: "(string \<times> string list) list"
  Period :: int
  Alias :: string
  RequestExceededMaxLimit :: bool
  isMathExpression :: bool
  isUserDefinedSearchExpression :: bool
  isInferredSearchExpression :: bool
  isMultiValuedDimensionExpression :: bool

record frame =
  Name :: string
  Fields :: "(int list \<times> real option list) option"
  Tags :: "string \<rightharpoonup> string"

record cloudwatchResponse =
  DataFrames :: "frame list"
  ResponsePeriod :: int
  ResponseExpression :: string
  ResponseRefId :: string
  ResponseId :: string
  ResponseExceededMaxLimit :: bool
  PartialData :: bool

type_synonym labelled = "(string \<times> metricDataResult) list"
type_synonym merged = "(string \<times> labelled) list"
type_synonym queries = "string \<rightharpoonup> cloudWatchQuery"

subsection \<open>parseResponse, first loop: merging the batches\<close>

definition requestExceededMaxLimit :: "getMetricDataOutput \<Rightarrow> bool" where
  "requestExceededMaxLimit mdo =
     list_ex (\<lambda>m. Code m = ''MaxMetricsExceeded'') (OutputMessages mdo)"

definition appendResult :: "metricDataResult \<Rightarrow> metricDataResult \<Rightarrow> metricDataResult" where
  "appendResult old r =
     old\<lparr>Timestamps := Timestamps old @ Timestamps r,
         Values := Values old @ Values r,
         StatusCode := (if StatusCode r = ''Complete'' then StatusCode r else StatusCode old)\<rparr>"

definition addResult :: "merged \<Rightarrow> metricDataResult \<Rightarrow> merged" where
  "addResult mdr r =
     (case map_of mdr (ResultId r) of
        None \<Rightarrow> AList.update (ResultId r) [(Label r, r)] mdr
      | Some lr \<Rightarrow>
          (case map_of lr (Label r) of
             None \<Rightarrow> AList.update (ResultId r) (AList.update (Label r) r lr) mdr
           | Some old \<Rightarrow>
               AList.update (ResultId r) (AList.update (Label r) (appendResult old r) lr) mdr))"

definition mergeResult ::
  "bool \<Rightarrow> merged \<times> queries \<Rightarrow> metricDataResult \<Rightarrow> failure + merged \<times> queries" where
  "mergeResult exceeded s r =
     (case snd s (ResultId r) of
        None \<Rightarrow> Inl (Panic NilPointerDereference)
      | Some q \<Rightarrow>
          Inr (addResult (fst s) r,
               (snd s)(ResultId r \<mapsto> q\<lparr>RequestExceededMaxLimit := exceeded\<rparr>)))"

fun mergeResults ::
  "bool \<Rightarrow> merged \<times> queries \<Rightarrow> metricDataResult list \<Rightarrow> failure + merged \<times> queries" where
  "mergeResults exceeded s [] = Inr s"
| "mergeResults exceeded s (r # rs) =
     (case mergeResult exceeded s r of
        Inl e \<Rightarrow> Inl e
      | Inr s' \<Rightarrow> mergeResults exceeded s' rs)"

fun mergeOutputs ::
  "merged \<times> queries \<Rightarrow> getMetricDataOutput list \<Rightarrow> failure + merged \<times> queries" where
  "mergeOutputs s [] = Inr s"
| "mergeOutputs s (mdo # rest) =
     (case mergeResults (requestExceededMaxLimit mdo) s (MetricDataResults mdo) of
        Inl e \<Rightarrow> Inl e
      | Inr s' \<Rightarrow> mergeOutputs s' rest)"

definition merge :: "getMetricDataOutput list \<Rightarrow> queries \<Rightarrow> failure + merged \<times> queries" where
  "merge metricDataOutputs qs = mergeOutputs ([], qs) metricDataOutputs"

subsection \<open>Go library functions used by the formatter\<close>

text \<open>\<^verbatim>\<open>strings.LastIndex(s, ",")\<close> for a one-byte separator: the last index, or \<open>-1\<close>.\<close>

fun lastIndex :: "string \<Rightarrow> char \<Rightarrow> int" where
  "lastIndex [] sep = - 1"
| "lastIndex (c # cs) sep =
     (if 0 \<le> lastIndex cs sep then lastIndex cs sep + 1
      else if c = sep then 0 else - 1)"

text \<open>\<^verbatim>\<open>strings.Trim(s, cutset)\<close>: leading and trailing bytes of the cutset removed.\<close>

definition trim :: "string \<Rightarrow> string \<Rightarrow> string" where
  "trim s cutset =
     rev (dropWhile (\<lambda>c. List.member cutset c) (rev (dropWhile (\<lambda>c. List.member cutset c) s)))"

text \<open>\<^verbatim>\<open>strings.TrimSpace\<close>, for the white space of ASCII (tab, line feed, vertical tab,
  form feed, carriage return, space); the white space beyond ASCII is not modelled.\<close>

definition trimSpace :: "string \<Rightarrow> string" where
  "trimSpace s = trim s [CHR 0x09, CHR 0x0A, CHR 0x0B, CHR 0x0C, CHR 0x0D, CHR '' '']"

text \<open>\<^verbatim>\<open>strings.Replace(s, old, "", 1)\<close>: the first occurrence of \<open>old\<close> removed.\<close>

fun removeFirst :: "string \<Rightarrow> string \<Rightarrow> string" where
  "removeFirst old [] = []"
| "removeFirst old (c # cs) =
     (if prefix old (c # cs) then drop (length old) (c # cs) else c # removeFirst old cs)"

text \<open>\<^verbatim>\<open>strconv.Itoa\<close>: the decimal digits of an integer.\<close>

fun digits :: "nat \<Rightarrow> string" where
  "digits n =
     (if n < 10 then [''0123456789'' ! n] else digits (n div 10) @ [''0123456789'' ! (n mod 10)])"

declare digits.simps [simp del]

definition itoa :: "int \<Rightarrow> string" where
  "itoa i = (if i < 0 then CHR ''-'' # digits (nat (- i)) else digits (nat i))"

subsection \<open>The alias template\<close>

text \<open>
  Modelled from the spec: the regular expression \<^verbatim>\<open>aliasFormat\<close> is declared outside the
  sources. By the spec a placeholder is a \<^verbatim>\<open>{{token}}\<close> occurrence, the token being the text
  between the double braces: a match starts at the leftmost \<^verbatim>\<open>{{\<close> and ends with the first
  \<^verbatim>\<open>}}\<close> that follows it. \<open>findClose s\<close> splits \<open>s\<close> at the first \<^verbatim>\<open>}}\<close>.
\<close>

fun findClose :: "string \<Rightarrow> (string \<times> string) option" where
  "findClose [] = None"
| "findClose [c] = None"
| "findClose (c # d # cs) =
     (if c = CHR ''}'' \<and> d = CHR ''}'' then Some ([], cs)
      else (case findClose (d # cs) of
              None \<Rightarrow> None
            | Some (body, rest) \<Rightarrow> Some (c # body, rest)))"

lemma findClose_length: "findClose s = Some (body, rest) \<Longrightarrow> length rest < length s"
  by (induction s arbitrary: body rule: findClose.induct)
     (fastforce split: if_splits option.splits)+

text \<open>\<^verbatim>\<open>aliasFormat.ReplaceAllFunc(src, repl)\<close>: the text outside the matches is copied, each
  match is replaced by \<open>repl\<close> of the matched text, and the scan goes on after the match.\<close>

function replaceAllFunc :: "(string \<Rightarrow> string) \<Rightarrow> string \<Rightarrow> string" where
  "replaceAllFunc repl [] = []"
| "replaceAllFunc repl (c # cs) =
     (if prefix ''{{'' (c # cs) then
        (case findClose (drop 2 (c # cs)) of
           None \<Rightarrow> c # cs
         | Some (body, rest) \<Rightarrow> repl (''{{'' @ body @ ''}}'') @ replaceAllFunc repl rest)
      else c # replaceAllFunc repl cs)"
  by pat_completeness auto
termination
proof (relation "measure (\<lambda>(repl, s). length s)")
  show "wf (measure (\<lambda>(repl :: string \<Rightarrow> string, s :: string). length s))" by simp
next
  fix repl :: "string \<Rightarrow> string" and c :: char and cs x2 body rest :: string
    and x :: "string \<times> string"
  assume "findClose (drop 2 (c # cs)) = Some x" and "(body, rest) = x"
  then have "length rest < length (drop 2 (c # cs))"
    using findClose_length by metis
  then show "((repl, rest), (repl, c # cs)) \<in> measure (\<lambda>(repl, s). length s)"
    by simp
next
  fix repl :: "string \<Rightarrow> string" and c :: char and cs :: string
  show "((repl, cs), (repl, c # cs)) \<in> measure (\<lambda>(repl, s). length s)" by simp
qed

declare replaceAllFunc.simps [simp del]

text \<open>The function handed to \<^verbatim>\<open>ReplaceAllFunc\<close> (lines 220-229).\<close>

definition aliasReplace :: "(string \<rightharpoonup> string) \<Rightarrow> string \<Rightarrow> string" where
  "aliasReplace data inp =
     (let labelName = removeFirst ''{{'' inp;
          labelName = removeFirst ''}}'' labelName;
          labelName = trimSpace labelName
      in case data labelName of Some val \<Rightarrow> val | None \<Rightarrow> inp)"

subsection \<open>formatAlias\<close>

text \<open>Lines 192-197: stat and period of a user-defined search expression are cut out of
  the expression; \<^verbatim>\<open>query.Expression[:pIndex]\<close> panics when there is no comma.\<close>

definition searchStatPeriod :: "string \<Rightarrow> failure + string \<times> string" where
  "searchStatPeriod expression =
     (let pIndex = lastIndex expression CHR '','';
          period = trim (drop (nat (pIndex + 1)) expression) '' )''
      in if pIndex < 0 then Inl (Panic SliceBoundsOutOfRange)
         else
           let sIndex = lastIndex (take (nat pIndex) expression) CHR '','';
               stat = trim (drop (nat (sIndex + 1)) (take (nat pIndex) expression))
                        [CHR '' '', CHR 0x27]
           in Inr (stat, period))"

definition aliasData ::
  "cloudWatchQuery \<Rightarrow> string \<Rightarrow> string \<Rightarrow> (string \<rightharpoonup> string) \<Rightarrow> string \<Rightarrow> (string \<rightharpoonup> string)" where
  "aliasData query stat period dimensions label =
     (let data = [''region'' \<mapsto> Region query, ''namespace'' \<mapsto> Namespace query,
                  ''metric'' \<mapsto> MetricName query, ''stat'' \<mapsto> stat, ''period'' \<mapsto> period];
          data = (if label \<noteq> [] then data(''label'' \<mapsto> label) else data)
      in data ++ dimensions)"

definition formatAlias ::
  "cloudWatchQuery \<Rightarrow> string \<Rightarrow> (string \<rightharpoonup> string) \<Rightarrow> string \<Rightarrow> failure + string" where
  "formatAlias query stat dimensions label =
     (case (if isUserDefinedSearchExpression query then searchStatPeriod (Expression query)
            else Inr (stat, itoa (Period query))) of
        Inl e \<Rightarrow> Inl e
      | Inr (stat, period) \<Rightarrow>
          if Alias query = [] \<and> isMathExpression query then Inr (QueryId query)
          else if Alias query = [] \<and> isInferredSearchExpression query
                  \<and> \<not> isMultiValuedDimensionExpression query then Inr label
          else
            let result = replaceAllFunc
                  (aliasReplace (aliasData query stat period dimensions label)) (Alias query)
            in if result = [] then Inr (MetricName query @ ''_'' @ stat) else Inr result)"

subsection \<open>parseGetMetricDataTimeSeries\<close>

text \<open>Lines 96-103: the dimension with the most values, over the entries in the order in
  which \<^verbatim>\<open>range query.Dimensions\<close> yields them; a later entry wins only with strictly
  more values.\<close>

definition multiValuedDimension :: "(string \<times> string list) list \<Rightarrow> string" where
  "multiValuedDimension entries =
     snd (fold (\<lambda>(key, values) (series, dimKey).
                  if length values > series then (length values, key) else (series, dimKey))
               entries (0, []))"

text \<open>Lines 106-111: the tags of one empty frame. Every other dimension that has a value
  contributes its first value. The keys of a Go map are distinct, so the map built does
  not depend on the order of this \<^verbatim>\<open>range\<close>.\<close>

definition emptyFrameTags ::
  "(string \<times> string list) list \<Rightarrow> string \<Rightarrow> string \<Rightarrow> (string \<rightharpoonup> string)" where
  "emptyFrameTags dims dimKey val =
     fold (\<lambda>(key, values) tags.
             if key \<noteq> dimKey \<and> length values > 0 then tags(key \<mapsto> values ! 0) else tags)
          dims [dimKey \<mapsto> val]"

text \<open>Lines 105-122, one iteration per value of the chosen dimension
  (\<^verbatim>\<open>query.Dimensions[multiValuedDimension]\<close> is nil for a missing key).\<close>

fun emptyFrames ::
  "cloudWatchQuery \<Rightarrow> string \<Rightarrow> string \<Rightarrow> string list \<Rightarrow> failure + frame list" where
  "emptyFrames query label dimKey [] = Inr []"
| "emptyFrames query label dimKey (val # vals) =
     (let tags = emptyFrameTags (Dimensions query) dimKey val
      in case formatAlias query (Stats query) tags label of
           Inl e \<Rightarrow> Inl e
         | Inr name \<Rightarrow>
             (case emptyFrames query label dimKey vals of
                Inl e \<Rightarrow> Inl e
              | Inr frames \<Rightarrow> Inr (\<lparr>Name = name, Fields = None, Tags = tags\<rparr> # frames)))"

text \<open>Lines 133-147: the tag of one dimension in the normal case.\<close>

definition tagDimension ::
  "string \<Rightarrow> string \<Rightarrow> string list \<Rightarrow> (string \<rightharpoonup> string) \<Rightarrow> (string \<rightharpoonup> string)" where
  "tagDimension label dimKey values tags =
     (if length values = 1 \<and> values ! 0 \<noteq> ''*'' then tags(dimKey \<mapsto> values ! 0)
      else fold (\<lambda>val tags.
                   if val = label \<or> val = ''*'' then tags(dimKey \<mapsto> label)
                   else if sublist val label then tags(dimKey \<mapsto> val)
                   else tags)
                values tags)"

text \<open>Lines 124-148: the dimension names are sorted, then tagged one by one.\<close>

definition resolveTags :: "(string \<times> string list) list \<Rightarrow> string \<Rightarrow> (string \<rightharpoonup> string)" where
  "resolveTags dims label =
     fold (\<lambda>dimKey tags.
             tagDimension label dimKey (case map_of dims dimKey of None \<Rightarrow> [] | Some values \<Rightarrow> values) tags)
          (sort (map fst dims)) Map.empty"

text \<open>
  Lines 150-164, the gap-filling loop. \<open>prev\<close> is \<^verbatim>\<open>Timestamps[j-1]\<close> (\<open>None\<close> when
  \<open>j = 0\<close>), \<open>values\<close> is what is left of \<^verbatim>\<open>Values\<close> from index \<open>j\<close> on. Reading
  \<^verbatim>\<open>Values[j]\<close> beyond the end panics, and so does the dereference \<^verbatim>\<open>*val\<close> in the
  argument list of the debug log on line 161 when the sample is nil.
\<close>

fun gapFill ::
  "int \<Rightarrow> int option \<Rightarrow> int list \<Rightarrow> real option list \<Rightarrow> int list \<times> real option list
     \<Rightarrow> failure + int list \<times> real option list" where
  "gapFill period prev [] values acc = Inr acc"
| "gapFill period prev (t # ts) values acc =
     (let acc = (case prev of
                   None \<Rightarrow> acc
                 | Some p \<Rightarrow>
                     if p + period < t
                     then (fst acc @ [1000 * (p + period)], snd acc @ [None])
                     else acc)
      in case values of
           [] \<Rightarrow> Inl (Panic IndexOutOfRange)
         | val # rest \<Rightarrow>
             (case val of
                None \<Rightarrow> Inl (Panic NilPointerDereference)
              | Some v \<Rightarrow>
                  gapFill period (Some t) ts rest (fst acc @ [1000 * t], snd acc @ [val])))"

text \<open>Lines 124-179: the frame of a label in the normal case.\<close>

definition seriesFrame ::
  "cloudWatchQuery \<Rightarrow> string \<Rightarrow> metricDataResult \<Rightarrow> failure + frame list" where
  "seriesFrame query label r =
     (let tags = resolveTags (Dimensions query) label
      in case gapFill (Period query) None (Timestamps r) (Values r) ([], []) of
           Inl e \<Rightarrow> Inl e
         | Inr columns \<Rightarrow>
             (case formatAlias query (Stats query) tags label of
                Inl e \<Rightarrow> Inl e
              | Inr name \<Rightarrow> Inr [\<lparr>Name = name, Fields = Some columns, Tags = tags\<rparr>]))"

text \<open>Lines 87-180: what one label contributes after the completeness check. \<open>entries\<close>
  is the order in which \<^verbatim>\<open>range query.Dimensions\<close> on line 98 yields the dimensions.\<close>

definition labelFrames ::
  "(string \<times> string list) list \<Rightarrow> cloudWatchQuery \<Rightarrow> string \<Rightarrow> metricDataResult
     \<Rightarrow> failure + frame list" where
  "labelFrames entries query label r =
     (case find (\<lambda>m. Code m = ''ArithmeticError'') (Messages r) of
        Some m \<Rightarrow> Inl (ArithmeticError (RefId query) (Value m))
      | None \<Rightarrow>
          if length (Values r) = 0 \<and> isMultiValuedDimensionExpression query then
            (let dimKey = multiValuedDimension entries
             in emptyFrames query label dimKey
                  (case map_of (Dimensions query) dimKey of None \<Rightarrow> [] | Some values \<Rightarrow> values))
          else seriesFrame query label r)"

text \<open>Lines 79-181, the loop over the sorted labels, with the accumulators \<^verbatim>\<open>frames\<close>
  and \<^verbatim>\<open>partialData\<close>. \<open>rangeDims label\<close> is the iteration order of the dimensions at
  the visit of \<open>label\<close>.\<close>

fun formatLabels ::
  "(string \<Rightarrow> (string \<times> string list) list) \<Rightarrow> labelled \<Rightarrow> cloudWatchQuery \<Rightarrow> string list
     \<Rightarrow> frame list \<times> bool \<Rightarrow> failure + frame list \<times> bool" where
  "formatLabels rangeDims lr query [] acc = Inr acc"
| "formatLabels rangeDims lr query (label # labels) acc =
     (case map_of lr label of
        None \<Rightarrow> Inl (Panic NilPointerDereference)
      | Some r \<Rightarrow>
          (let partialData = (if StatusCode r \<noteq> ''Complete'' then True else snd acc)
           in case labelFrames (rangeDims label) query label r of
                Inl e \<Rightarrow> Inl e
              | Inr frames \<Rightarrow>
                  formatLabels rangeDims lr query labels (fst acc @ frames, partialData)))"

definition parseGetMetricDataTimeSeries ::
  "(string \<Rightarrow> (string \<times> string list) list) \<Rightarrow> labelled \<Rightarrow> cloudWatchQuery
     \<Rightarrow> failure + frame list \<times> bool" where
  "parseGetMetricDataTimeSeries rangeDims metricDataResults query =
     formatLabels rangeDims metricDataResults query
       (sort (map fst metricDataResults)) ([], False)"

subsection \<open>parseResponse, second loop: one response per query id\<close>

text \<open>Lines 44-61 over the entries of \<^verbatim>\<open>mdr\<close> in the order in which \<^verbatim>\<open>range mdr\<close>
  yields them. \<^verbatim>\<open>queries[id]\<close> is nil for a missing id.\<close>

fun formatQueries ::
  "(string \<Rightarrow> string \<Rightarrow> (string \<times> string list) list) \<Rightarrow> queries \<Rightarrow> merged
     \<Rightarrow> cloudwatchResponse list \<Rightarrow> failure + cloudwatchResponse list" where
  "formatQueries rangeDims qs [] cloudWatchResponses = Inr cloudWatchResponses"
| "formatQueries rangeDims qs ((ident, lr) # entries) cloudWatchResponses =
     (case qs ident of
        None \<Rightarrow> Inl (Panic NilPointerDereference)
      | Some query \<Rightarrow>
          (case parseGetMetricDataTimeSeries (rangeDims ident) lr query of
             Inl e \<Rightarrow> Inl e
           | Inr (frames, partialData) \<Rightarrow>
               formatQueries rangeDims qs entries
                 (cloudWatchResponses @
                  [\<lparr>DataFrames = frames,
                    ResponsePeriod = Period query,
                    ResponseExpression = UsedExpression query,
                    ResponseRefId = RefId query,
                    ResponseId = QueryId query,
                    ResponseExceededMaxLimit = RequestExceededMaxLimit query,
                    PartialData = partialData\<rparr>])))"

text \<open>\<open>rangeMdr\<close> permutes the merged entries into the order of \<^verbatim>\<open>range mdr\<close>.\<close>

definition parseResponse ::
  "(merged \<Rightarrow> merged) \<Rightarrow> (string \<Rightarrow> string \<Rightarrow> (string \<times> string list) list)
     \<Rightarrow> getMetricDataOutput list \<Rightarrow> queries \<Rightarrow> failure + cloudwatchResponse list" where
  "parseResponse rangeMdr rangeDims metricDataOutputs qs =
     (case merge metricDataOutputs qs of
        Inl e \<Rightarrow> Inl e
      | Inr (mdr, qs') \<Rightarrow> formatQueries rangeDims qs' (rangeMdr mdr) [])"

section \<open>Notions of the specification\<close>

text \<open>The merged result of an (id, label) pair.\<close>

definition lookupMerged :: "merged \<Rightarrow> string \<Rightarrow> string \<Rightarrow> metricDataResult option" where
  "lookupMerged mdr ident label =
     (case map_of mdr ident of None \<Rightarrow> None | Some lr \<Rightarrow> map_of lr label)"

text \<open>The fragments that the batches contribute to an (id, label) pair, in arrival order.\<close>

definition fragments :: "getMetricDataOutput list \<Rightarrow> string \<Rightarrow> string \<Rightarrow> metricDataResult list" where
  "fragments outputs ident label =
     filter (\<lambda>r. ResultId r = ident \<and> Label r = label) (concat (map MetricDataResults outputs))"

text \<open>What the first loop of \<^verbatim>\<open>parseResponse\<close> makes of the fragments of one pair: the
  first is stored, each later one is appended to it.\<close>

fun combine :: "metricDataResult option \<Rightarrow> metricDataResult list \<Rightarrow> metricDataResult option" where
  "combine acc [] = acc"
| "combine None (r # rs) = combine (Some r) rs"
| "combine (Some old) (r # rs) = combine (Some (appendResult old r)) rs"



text \<open>The candidate values of a dimension (\<^verbatim>\<open>query.Dimensions[key]\<close>, nil when missing).\<close>

definition candidates :: "(string \<times> string list) list \<Rightarrow> string \<Rightarrow> string list" where
  "candidates dims dimKey = (case map_of dims dimKey of None \<Rightarrow> [] | Some values \<Rightarrow> values)"

text \<open>
  The tags of an empty frame, pointwise: the chosen dimension carries the candidate value,
  every other dimension that has a value carries its first value.
\<close>

definition fanOutTags ::
  "(string \<times> string list) list \<Rightarrow> string \<Rightarrow> string \<Rightarrow> (string \<rightharpoonup> string)" where
  "fanOutTags dims dimKey v =
     (\<lambda>k. if k = dimKey then Some v
          else (case map_of dims k of
                  None \<Rightarrow> None
                | Some values \<Rightarrow> (case values of [] \<Rightarrow> None | x # xs \<Rightarrow> Some x)))"

text \<open>The tags as C7 words them: only the other dimensions with exactly one value.\<close>

definition claimedFanOutTags ::
  "(string \<times> string list) list \<Rightarrow> string \<Rightarrow> string \<Rightarrow> (string \<rightharpoonup> string)" where
  "claimedFanOutTags dims dimKey v =
     (\<lambda>k. if k = dimKey then Some v
          else (case map_of dims k of
                  None \<Rightarrow> None
                | Some values \<Rightarrow> if length values = 1 then Some (values ! 0) else None))"




text \<open>The labels of every merged entry are distinct, as the keys of a Go map are.\<close>

definition labelsDistinct :: "merged \<Rightarrow> bool" where
  "labelsDistinct mdr = list_all (\<lambda>e. distinct (map fst (snd e))) mdr"

subsection \<open>Example data\<close>

definition exampleQuery :: cloudWatchQuery where
  "exampleQuery =
     \<lparr>RefId = ''A'', Region = ''us-east-1'', QueryId = ''q1'', Namespace = ''AWS/EC2'',
      MetricName = ''test'', Stats = ''stat1'', Expression = [], UsedExpression = [],
      Dimensions = [(''dim1'', [''val1'', ''val2''])], Period = 60,
      Alias = ''{{metric}}_{{stat}}'', RequestExceededMaxLimit = False,
      isMathExpression = False, isUserDefinedSearchExpression = False,
      isInferredSearchExpression = False, isMultiValuedDimensionExpression = False\<rparr>"

definition fragment ::
  "string \<Rightarrow> string \<Rightarrow> int list \<Rightarrow> real option list \<Rightarrow> string \<Rightarrow> metricDataResult" where
  "fragment ident label ts vs status =
     \<lparr>ResultId = ident, Label = label, Timestamps = ts, Values = vs, StatusCode = status,
      Messages = []\<rparr>"

definition batch :: "string list \<Rightarrow> metricDataResult list \<Rightarrow> getMetricDataOutput" where
  "batch codes rs =
     \<lparr>OutputMessages = map (\<lambda>c. \<lparr>Code = c, Value = []\<rparr>) codes, MetricDataResults = rs\<rparr>"

definition fanOutQuery :: cloudWatchQuery where
  "fanOutQuery = exampleQuery\<lparr>isMultiValuedDimensionExpression := True\<rparr>"

text \<open>A result that arrives in two pages: the first page partial, the last one complete.\<close>

definition pagedOutputs :: "getMetricDataOutput list" where
  "pagedOutputs =
     [batch [] [fragment ''q1'' ''l'' [0] [Some 1] ''PartialData''],
      batch [] [fragment ''q1'' ''l'' [60] [Some 2] ''Complete'']]"




section \<open>Lemmas about the merge\<close>

lemma lookupMerged_addResult:
  "lookupMerged (addResult mdr r) i l =
     (if i = ResultId r \<and> l = Label r
      then combine (lookupMerged mdr i l) [r]
      else lookupMerged mdr i l)"
  by (auto simp: lookupMerged_def addResult_def update_conv' split: option.splits)

lemma combine_append: "combine acc (xs @ ys) = combine (combine acc xs) ys"
  by (induction acc xs rule: combine.induct) auto

lemma mergeResults_lookup:
  "mergeResults ex s rs = Inr s' \<Longrightarrow>
   lookupMerged (fst s') i l =
     combine (lookupMerged (fst s) i l) (filter (\<lambda>r. ResultId r = i \<and> Label r = l) rs)"
proof (induction rs arbitrary: s)
  case Nil
  then show ?case by simp
next
  case (Cons r rs)
  from Cons.prems obtain s1 where s1: "mergeResult ex s r = Inr s1"
    and rest: "mergeResults ex s1 rs = Inr s'"
    by (auto split: sum.splits)
  from s1 have "fst s1 = addResult (fst s) r"
    by (auto simp: mergeResult_def split: option.splits)
  then have "lookupMerged (fst s1) i l =
      (if i = ResultId r \<and> l = Label r then combine (lookupMerged (fst s) i l) [r]
       else lookupMerged (fst s) i l)"
    by (simp add: lookupMerged_addResult)
  with Cons.IH [OF rest] show ?case
    by (cases "lookupMerged (fst s) i l") auto
qed

lemma mergeOutputs_lookup:
  "mergeOutputs s outputs = Inr s' \<Longrightarrow>
   lookupMerged (fst s') i l = combine (lookupMerged (fst s) i l) (fragments outputs i l)"
proof (induction outputs arbitrary: s)
  case Nil
  then show ?case by (simp add: fragments_def)
next
  case (Cons mdo rest)
  from Cons.prems obtain s1 where s1: "mergeResults (requestExceededMaxLimit mdo) s (MetricDataResults mdo) = Inr s1"
    and r: "mergeOutputs s1 rest = Inr s'"
    by (auto split: sum.splits)
  have "fragments (mdo # rest) i l =
      filter (\<lambda>r. ResultId r = i \<and> Label r = l) (MetricDataResults mdo) @ fragments rest i l"
    by (simp add: fragments_def)
  with Cons.IH [OF r] mergeResults_lookup [OF s1, of i l] show ?case
    by (simp add: combine_append)
qed

lemma merge_lookup:
  "merge outputs qs = Inr (mdr, qs') \<Longrightarrow>
   lookupMerged mdr i l = combine None (fragments outputs i l)"
  using mergeOutputs_lookup [of "([], qs)" outputs "(mdr, qs')" i l]
  by (simp add: merge_def lookupMerged_def)

lemma combine_Some:
  "\<exists>m. combine (Some old) fs = Some m
     \<and> Timestamps m = Timestamps old @ concat (map Timestamps fs)
     \<and> Values m = Values old @ concat (map Values fs)
     \<and> (StatusCode m = ''Complete'') =
         (StatusCode old = ''Complete'' \<or> list_ex (\<lambda>f. StatusCode f = ''Complete'') fs)
     \<and> (StatusCode m \<noteq> ''Complete'' \<longrightarrow> StatusCode m = StatusCode old)
     \<and> Messages m = Messages old \<and> ResultId m = ResultId old \<and> Label m = Label old"
proof (induction fs arbitrary: old)
  case Nil
  then show ?case by simp
next
  case (Cons f fs)
  from Cons.IH [of "appendResult old f"] show ?case
    by (auto simp: appendResult_def)
qed

lemma mergeResult_dom:
  "mergeResult ex s r = Inr s' \<Longrightarrow> dom (snd s') = dom (snd s)"
  by (auto simp: mergeResult_def split: option.splits if_splits)

lemma mergeResults_dom:
  "mergeResults ex s rs = Inr s' \<Longrightarrow> dom (snd s') = dom (snd s)"
proof (induction rs arbitrary: s)
  case Nil
  then show ?case by simp
next
  case (Cons r rs)
  from Cons.prems obtain s1 where s1: "mergeResult ex s r = Inr s1"
    and rest: "mergeResults ex s1 rs = Inr s'"
    by (auto split: sum.splits)
  from Cons.IH [OF rest] mergeResult_dom [OF s1] show ?case by simp
qed

lemma mergeOutputs_dom:
  "mergeOutputs s outputs = Inr s' \<Longrightarrow> dom (snd s') = dom (snd s)"
proof (induction outputs arbitrary: s)
  case Nil
  then show ?case by simp
next
  case (Cons mdo rest)
  from Cons.prems obtain s1 where
    s1: "mergeResults (requestExceededMaxLimit mdo) s (MetricDataResults mdo) = Inr s1"
    and r: "mergeOutputs s1 rest = Inr s'"
    by (auto split: sum.splits)
  from Cons.IH [OF r] mergeResults_dom [OF s1] show ?case by simp
qed

lemma mergeResults_total:
  "list_all (\<lambda>r. ResultId r \<in> dom (snd s)) rs \<Longrightarrow> \<exists>s'. mergeResults ex s rs = Inr s'"
proof (induction rs arbitrary: s)
  case Nil
  then show ?case by simp
next
  case (Cons r rs)
  from Cons.prems obtain q where "snd s (ResultId r) = Some q" by auto
  then obtain s1 where s1: "mergeResult ex s r = Inr s1"
    by (simp add: mergeResult_def)
  with Cons.prems have "list_all (\<lambda>r. ResultId r \<in> dom (snd s1)) rs"
    by (simp add: mergeResult_dom)
  from Cons.IH [OF this] s1 show ?case by simp
qed

lemma mergeOutputs_total:
  "list_all (\<lambda>r. ResultId r \<in> dom (snd s)) (concat (map MetricDataResults outputs))
     \<Longrightarrow> \<exists>s'. mergeOutputs s outputs = Inr s'"
proof (induction outputs arbitrary: s)
  case Nil
  then show ?case by simp
next
  case (Cons mdo rest)
  from Cons.prems mergeResults_total obtain s1 where
    s1: "mergeResults (requestExceededMaxLimit mdo) s (MetricDataResults mdo) = Inr s1"
    by (metis concat.simps(2) list.simps(9) list_all_append)
  with Cons.prems have "list_all (\<lambda>r. ResultId r \<in> dom (snd s1)) (concat (map MetricDataResults rest))"
    by (simp add: mergeResults_dom)
  from Cons.IH [OF this] s1 show ?case by simp
qed

lemma mergeResults_failure:
  "mergeResults ex s rs = Inl e \<Longrightarrow> e = Panic NilPointerDereference"
proof (induction rs arbitrary: s)
  case Nil
  then show ?case by simp
next
  case (Cons r rs)
  then show ?case
    by (auto simp: mergeResult_def split: sum.splits option.splits)
qed

lemma mergeResults_unknown:
  "r \<in> set rs \<Longrightarrow> snd s (ResultId r) = None
     \<Longrightarrow> mergeResults ex s rs = Inl (Panic NilPointerDereference)"
proof (induction rs arbitrary: s)
  case Nil
  then show ?case by simp
next
  case (Cons x rs)
  show ?case
  proof (cases "mergeResult ex s x")
    case (Inl e)
    then show ?thesis by (auto simp: mergeResult_def split: option.splits)
  next
    case (Inr s1)
    then have "x \<noteq> r" using Cons.prems by (auto simp: mergeResult_def split: option.splits)
    moreover have "snd s1 (ResultId r) = None"
      using mergeResult_dom [OF Inr] Cons.prems(2) by (metis domIff)
    ultimately show ?thesis using Cons Inr by auto
  qed
qed

lemma mergeOutputs_unknown:
  "r \<in> set (concat (map MetricDataResults outputs)) \<Longrightarrow> snd s (ResultId r) = None
     \<Longrightarrow> mergeOutputs s outputs = Inl (Panic NilPointerDereference)"
proof (induction outputs arbitrary: s)
  case Nil
  then show ?case by simp
next
  case (Cons mdo rest)
  show ?case
  proof (cases "r \<in> set (MetricDataResults mdo)")
    case True
    then show ?thesis using Cons.prems(2) by (simp add: mergeResults_unknown)
  next
    case False
    with Cons.prems have in_rest: "r \<in> set (concat (map MetricDataResults rest))" by simp
    show ?thesis
    proof (cases "mergeResults (requestExceededMaxLimit mdo) s (MetricDataResults mdo)")
      case (Inl e)
      then have "e = Panic NilPointerDereference"
        by (rule mergeResults_failure)
      with Inl show ?thesis by simp
    next
      case (Inr s1)
      have "snd s1 (ResultId r) = None"
        using mergeResults_dom [OF Inr] Cons.prems(2) by (metis domIff)
      with Cons.IH [OF in_rest this] Inr show ?thesis by simp
    qed
  qed
qed

lemma set_update_subset: "set (AList.update k v al) \<subseteq> insert (k, v) (set al)"
  by (induction al) auto

lemma labelsDistinct_update:
  "labelsDistinct mdr \<Longrightarrow> distinct (map fst lr) \<Longrightarrow> labelsDistinct (AList.update k lr mdr)"
  using set_update_subset [of k lr mdr]
  by (auto simp: labelsDistinct_def list_all_iff)

lemma labelsDistinct_addResult:
  assumes "labelsDistinct mdr"
  shows "labelsDistinct (addResult mdr r)"
proof (cases "map_of mdr (ResultId r)")
  case None
  with assms show ?thesis
    by (simp add: addResult_def labelsDistinct_update)
next
  case (Some lr)
  then have "(ResultId r, lr) \<in> set mdr" by (rule map_of_SomeD)
  with assms have "distinct (map fst lr)"
    by (auto simp: labelsDistinct_def list_all_iff)
  then have "distinct (map fst (AList.update (Label r) x lr))" for x
    by (rule distinct_update)
  with assms Some show ?thesis
    by (simp add: addResult_def labelsDistinct_update split: option.splits)
qed

lemma keys_addResult: "fst ` set (addResult mdr r) = insert (ResultId r) (fst ` set mdr)"
  by (simp add: addResult_def dom_update split: option.splits)

lemma mergeResults_invariant:
  "mergeResults ex s rs = Inr s' \<Longrightarrow> labelsDistinct (fst s) \<Longrightarrow>
   labelsDistinct (fst s') \<and> fst ` set (fst s') = fst ` set (fst s) \<union> ResultId ` set rs"
proof (induction rs arbitrary: s)
  case Nil
  then show ?case by simp
next
  case (Cons r rs)
  from Cons.prems obtain s1 where s1: "mergeResult ex s r = Inr s1"
    and rest: "mergeResults ex s1 rs = Inr s'"
    by (auto split: sum.splits)
  from s1 have f: "fst s1 = addResult (fst s) r"
    by (auto simp: mergeResult_def split: option.splits)
  with Cons.prems(2) have "labelsDistinct (fst s1)"
    by (simp add: labelsDistinct_addResult)
  from Cons.IH [OF rest this] f show ?case
    by (auto simp: keys_addResult)
qed

lemma mergeOutputs_invariant:
  "mergeOutputs s outputs = Inr s' \<Longrightarrow> labelsDistinct (fst s) \<Longrightarrow>
   labelsDistinct (fst s')
   \<and> fst ` set (fst s') = fst ` set (fst s) \<union> ResultId ` set (concat (map MetricDataResults outputs))"
proof (induction outputs arbitrary: s)
  case Nil
  then show ?case by simp
next
  case (Cons mdo rest)
  from Cons.prems obtain s1 where
    s1: "mergeResults (requestExceededMaxLimit mdo) s (MetricDataResults mdo) = Inr s1"
    and r: "mergeOutputs s1 rest = Inr s'"
    by (auto split: sum.splits)
  from mergeResults_invariant [OF s1 Cons.prems(2)]
  have d: "labelsDistinct (fst s1)"
    and k: "fst ` set (fst s1) = fst ` set (fst s) \<union> ResultId ` set (MetricDataResults mdo)"
    by simp_all
  from Cons.IH [OF r d] k show ?case by auto
qed

lemma merge_invariant:
  assumes "merge outputs qs = Inr (mdr, qs')"
  shows "labelsDistinct mdr"
    and "fst ` set mdr = ResultId ` set (concat (map MetricDataResults outputs))"
  using mergeOutputs_invariant [of "([], qs)" outputs "(mdr, qs')"] assms
  by (simp_all add: merge_def labelsDistinct_def)

lemma combine_None_iff: "(combine None fs = None) = (fs = [])"
proof (cases fs)
  case Nil
  then show ?thesis by simp
next
  case (Cons f fs')
  with combine_Some [of f fs'] show ?thesis by auto
qed

lemma merged_labels:
  assumes "merge outputs qs = Inr (mdr, qs')" and "map_of mdr ident = Some lr"
  shows "distinct (map fst lr)"
    and "set (map fst lr) = {l. fragments outputs ident l \<noteq> []}"
    and "map_of lr l = combine None (fragments outputs ident l)"
proof -
  from assms(2) have "(ident, lr) \<in> set mdr" by (rule map_of_SomeD)
  with merge_invariant(1) [OF assms(1)] show "distinct (map fst lr)"
    by (auto simp: labelsDistinct_def list_all_iff)
  show l: "map_of lr l = combine None (fragments outputs ident l)" for l
    using merge_lookup [OF assms(1), of ident l] assms(2) by (simp add: lookupMerged_def)
  have "(l \<in> set (map fst lr)) = (fragments outputs ident l \<noteq> [])" for l
  proof -
    have "(l \<in> set (map fst lr)) = (map_of lr l \<noteq> None)"
      by (simp add: map_of_eq_None_iff)
    also have "\<dots> = (fragments outputs ident l \<noteq> [])"
      unfolding l [of l] by (simp add: combine_None_iff)
    finally show ?thesis .
  qed
  then show "set (map fst lr) = {l. fragments outputs ident l \<noteq> []}"
    by blast
qed

lemma merged_status:
  assumes "merge outputs qs = Inr (mdr, qs')" and "map_of mdr ident = Some lr"
    and "map_of lr l = Some r"
  shows "(StatusCode r = ''Complete'')
       = list_ex (\<lambda>f. StatusCode f = ''Complete'') (fragments outputs ident l)"
proof -
  from merged_labels(3) [OF assms(1,2), of l] assms(3)
  have c: "combine None (fragments outputs ident l) = Some r" by simp
  then obtain f fs where fs: "fragments outputs ident l = f # fs"
    by (cases "fragments outputs ident l") auto
  with c combine_Some [of f fs] show ?thesis by auto
qed

lemma fragments_nonempty:
  "(fragments outputs ident label \<noteq> [])
     = (\<exists>r \<in> set (concat (map MetricDataResults outputs)). ResultId r = ident \<and> Label r = label)"
  by (auto simp: fragments_def filter_empty_conv)

section \<open>Lemmas about the gap-filling loop\<close>




section \<open>Lemmas about the empty frames\<close>

lemma emptyFrameTags_fold:
  "distinct (map fst dims) \<Longrightarrow>
   fold (\<lambda>(key, values) tags.
           if key \<noteq> d \<and> values \<noteq> [] then tags(key \<mapsto> values ! 0) else tags) dims tags
   = (\<lambda>k. if k = d then tags k
           else (case map_of dims k of
                   None \<Rightarrow> tags k
                 | Some values \<Rightarrow> (case values of [] \<Rightarrow> tags k | x # xs \<Rightarrow> Some x)))"
proof (induction dims arbitrary: tags)
  case Nil
  then show ?case by auto
next
  case (Cons e dims)
  obtain key vals where e: "e = (key, vals)" by (cases e)
  from Cons.prems e have notin: "map_of dims key = None" and d: "distinct (map fst dims)"
    by (auto simp: map_of_eq_None_iff)
  show ?case
  proof (rule ext)
    fix k
    show "fold (\<lambda>(key, values) tags.
           if key \<noteq> d \<and> values \<noteq> [] then tags(key \<mapsto> values ! 0) else tags) (e # dims) tags k
      = (if k = d then tags k
           else (case map_of (e # dims) k of
                   None \<Rightarrow> tags k
                 | Some values \<Rightarrow> (case values of [] \<Rightarrow> tags k | x # xs \<Rightarrow> Some x)))"
      using notin
      by (cases vals) (simp_all add: e Cons.IH [OF d] split: option.splits list.splits)
  qed
qed

lemma emptyFrameTags_eq:
  "distinct (map fst dims) \<Longrightarrow> emptyFrameTags dims d v = fanOutTags dims d v"
  by (auto simp: emptyFrameTags_def fanOutTags_def emptyFrameTags_fold
        split: option.splits list.splits)

lemma dominant_fold:
  "fold (\<lambda>(key, values) (series, d).
           if length values > series then (length values, key) else (series, d)) entries (n, d)
     = (n', d') \<Longrightarrow>
   (\<forall>(k, vs) \<in> set entries. length vs \<le> n') \<and> n \<le> n'
   \<and> ((n', d') = (n, d) \<or> (\<exists>vs. (d', vs) \<in> set entries \<and> length vs = n'))"
proof (induction entries arbitrary: n d)
  case Nil
  then show ?case by simp
next
  case (Cons e entries)
  obtain key vals where e: "e = (key, vals)" by (cases e)
  show ?case
  proof (cases "length vals > n")
    case True
    with Cons.prems e have "fold (\<lambda>(key, values) (series, d).
           if length values > series then (length values, key) else (series, d)) entries (length vals, key)
        = (n', d')" by simp
    from Cons.IH [OF this] True e show ?thesis by auto
  next
    case False
    with Cons.prems e have "fold (\<lambda>(key, values) (series, d).
           if length values > series then (length values, key) else (series, d)) entries (n, d)
        = (n', d')" by simp
    from Cons.IH [OF this] False e show ?thesis by auto
  qed
qed

lemma multiValuedDimension_max:
  assumes "distinct (map fst dims)" and "set entries = set dims"
  shows "list_all (\<lambda>(k, vs). length vs \<le> length (candidates dims (multiValuedDimension entries))) dims"
proof -
  obtain n' d' where f: "fold (\<lambda>(key, values) (series, d).
           if length values > series then (length values, key) else (series, d)) entries (0, [])
     = (n', d')" by (cases "fold (\<lambda>(key, values) (series, d).
           if length values > series then (length values, key) else (series, d)) entries (0, [])")
  then have D: "multiValuedDimension entries = d'"
    by (simp add: multiValuedDimension_def)
  from dominant_fold [OF f] have bound: "\<forall>(k, vs) \<in> set entries. length vs \<le> n'"
    and alt: "(n', d') = (0, []) \<or> (\<exists>vs. (d', vs) \<in> set entries \<and> length vs = n')"
    by blast+
  from alt have "n' \<le> length (candidates dims d')"
  proof
    assume "(n', d') = (0, [])"
    then show ?thesis by simp
  next
    assume "\<exists>vs. (d', vs) \<in> set entries \<and> length vs = n'"
    then obtain vs where "(d', vs) \<in> set dims" and "length vs = n'"
      using assms(2) by auto
    with assms(1) show ?thesis by (simp add: candidates_def)
  qed
  with bound assms(2) D show ?thesis
    by (fastforce simp: list_all_iff)
qed

lemma lastIndex_member: "(0 \<le> lastIndex s c) = (c \<in> set s)"
  by (induction s) auto

lemma searchStatPeriod_ok:
  "CHR '','' \<in> set expression \<Longrightarrow> \<exists>stat period. searchStatPeriod expression = Inr (stat, period)"
  using lastIndex_member [of expression "CHR '',''"]
  by (simp add: searchStatPeriod_def Let_def)

lemma formatAlias_ok:
  "(isUserDefinedSearchExpression q \<longrightarrow> CHR '','' \<in> set (Expression q)) \<Longrightarrow>
   \<exists>name. formatAlias q stat tags label = Inr name"
proof (cases "isUserDefinedSearchExpression q")
  case True
  assume "isUserDefinedSearchExpression q \<longrightarrow> CHR '','' \<in> set (Expression q)"
  with True searchStatPeriod_ok [of "Expression q"] obtain s p where
    "searchStatPeriod (Expression q) = Inr (s, p)" by blast
  with True show ?thesis by (simp add: formatAlias_def Let_def)
next
  case False
  then show ?thesis by (simp add: formatAlias_def Let_def)
qed

lemma emptyFrames_ok:
  assumes "isUserDefinedSearchExpression q \<longrightarrow> CHR '','' \<in> set (Expression q)"
  shows "\<exists>frames. emptyFrames q label d vals = Inr frames
           \<and> map Tags frames = map (emptyFrameTags (Dimensions q) d) vals
           \<and> map Fields frames = map (\<lambda>v. None) vals
           \<and> list_all (\<lambda>f. formatAlias q (Stats q) (Tags f) label = Inr (Name f)) frames"
proof (induction vals)
  case Nil
  then show ?case by simp
next
  case (Cons v vals)
  from formatAlias_ok [OF assms] obtain name where
    "formatAlias q (Stats q) (emptyFrameTags (Dimensions q) d v) label = Inr name" by blast
  with Cons.IH show ?case by (auto simp: Let_def)
qed

section \<open>Lemmas about the alias template\<close>






section \<open>Lemmas about the loop over the labels\<close>

lemma formatLabels_result:
  "formatLabels rd lr q labels acc = Inr (frames, pd) \<Longrightarrow>
   pd = (snd acc \<or> list_ex (\<lambda>l. case map_of lr l of
                                    None \<Rightarrow> False
                                  | Some r \<Rightarrow> StatusCode r \<noteq> ''Complete'') labels)
   \<and> (\<exists>groups. list_all2 (\<lambda>l g. \<exists>r. map_of lr l = Some r \<and> labelFrames (rd l) q l r = Inr g)
                  labels groups
              \<and> frames = fst acc @ concat groups)"
proof (induction labels arbitrary: acc)
  case Nil
  then show ?case by auto
next
  case (Cons l labels)
  from Cons.prems obtain r g where r: "map_of lr l = Some r"
    and g: "labelFrames (rd l) q l r = Inr g"
    and rest: "formatLabels rd lr q labels
         (fst acc @ g, if StatusCode r \<noteq> ''Complete'' then True else snd acc) = Inr (frames, pd)"
    by (auto simp: Let_def split: option.splits sum.splits)
  from Cons.IH [OF rest] obtain groups where
    pd: "pd = ((if StatusCode r \<noteq> ''Complete'' then True else snd acc)
           \<or> list_ex (\<lambda>l. case map_of lr l of None \<Rightarrow> False
                                  | Some r \<Rightarrow> StatusCode r \<noteq> ''Complete'') labels)"
    and gs: "list_all2 (\<lambda>l g. \<exists>r. map_of lr l = Some r \<and> labelFrames (rd l) q l r = Inr g)
                  labels groups"
    and fr: "frames = (fst acc @ g) @ concat groups"
    by auto
  from gs r g have "list_all2 (\<lambda>l g. \<exists>r. map_of lr l = Some r \<and> labelFrames (rd l) q l r = Inr g)
                  (l # labels) (g # groups)" by simp
  moreover from fr have "frames = fst acc @ concat (g # groups)" by simp
  moreover from pd r have "pd = (snd acc \<or> list_ex (\<lambda>l. case map_of lr l of
                                    None \<Rightarrow> False
                                  | Some r \<Rightarrow> StatusCode r \<noteq> ''Complete'') (l # labels))"
    by auto
  ultimately show ?case by blast
qed

lemma sort_eq_of_set_eq:
  fixes xs ys :: "string list"
  assumes "distinct xs" and "distinct ys" and "set xs = set ys"
  shows "sort xs = sort ys"
proof (rule sorted_distinct_set_unique)
  show "sorted (sort xs)" and "sorted (sort ys)" by simp_all
  show "distinct (sort xs)" and "distinct (sort ys)" using assms by simp_all
  show "set (sort xs) = set (sort ys)" using assms by simp
qed

section \<open>Lemmas about failures\<close>












section \<open>The claims\<close>

lemmas merge_eval = merge_def mergeResult_def addResult_def appendResult_def
  requestExceededMaxLimit_def batch_def fragment_def exampleQuery_def

lemmas format_eval = parseResponse_def parseGetMetricDataTimeSeries_def labelFrames_def
  seriesFrame_def resolveTags_def tagDimension_def formatAlias_def aliasData_def
  aliasReplace_def replaceAllFunc.simps trimSpace_def trim_def itoa_def digits.simps
  multiValuedDimension_def emptyFrameTags_def searchStatPeriod_def
  list_less_def list_le_def sublist_Cons_right Let_def

subsection \<open>C1: a fatal message\<close>




subsection \<open>C2: a fragment with an unknown query id\<close>

text \<open>
  C2, as stated, fails: a fragment whose id is not a key of \<^verbatim>\<open>queries\<close> makes line 39
  assign through the nil pointer \<^verbatim>\<open>queries[*r.Id]\<close>, which is a run-time panic and not
  an error value. Here the only query is \<open>q1\<close> and the fragment belongs to \<open>q2\<close>.
\<close>

theorem unknown_query_id_no_error_value:
  "\<not> (case merge [batch [] [fragment ''q2'' ''l'' [0] [Some 1] ''Complete'']]
               [''q1'' \<mapsto> exampleQuery] of
         Inl e \<Rightarrow> is_error_value e
       | Inr s \<Rightarrow> False)"
  by (simp add: merge_def mergeResult_def batch_def fragment_def)

text \<open>
  C2, amended: if some fragment of the batches has an id that is not a key of the queries,
  the merge panics with a nil dereference, and so does \<^verbatim>\<open>parseResponse\<close>: neither a merged
  result, partial or whole, nor an error value is returned.
\<close>

theorem merge_unknown_query_id_panics:
  assumes "r \<in> set (concat (map MetricDataResults outputs))" and "qs (ResultId r) = None"
  shows "merge outputs qs = Inl (Panic NilPointerDereference)
       \<and> parseResponse rangeMdr rangeDims outputs qs = Inl (Panic NilPointerDereference)"
  using mergeOutputs_unknown [of r outputs "([], qs)"] assms
  by (simp add: merge_def parseResponse_def)

theorem merge_unknown_query_id_panics_witness:
  "merge [batch [] [fragment ''q1'' ''l'' [0] [Some 1] ''Complete''],
          batch [] [fragment ''q2'' ''l'' [0] [Some 1] ''Complete'']]
         [''q1'' \<mapsto> exampleQuery] = Inl (Panic NilPointerDereference)
   \<and> parseResponse id (\<lambda>i l. [])
         [batch [] [fragment ''q1'' ''l'' [0] [Some 1] ''Complete''],
          batch [] [fragment ''q2'' ''l'' [0] [Some 1] ''Complete'']]
         [''q1'' \<mapsto> exampleQuery] = Inl (Panic NilPointerDereference)"
  using merge_unknown_query_id_panics
    [of "fragment ''q2'' ''l'' [0] [Some 1] ''Complete''"
        "[batch [] [fragment ''q1'' ''l'' [0] [Some 1] ''Complete''],
          batch [] [fragment ''q2'' ''l'' [0] [Some 1] ''Complete'']]"
        "[''q1'' \<mapsto> exampleQuery]" id "\<lambda>i l. []"]
  by (simp add: batch_def fragment_def)

subsection \<open>C3: the exceeded-limit flag\<close>

text \<open>
  C3 at a failing input: the first batch carries \<^verbatim>\<open>MaxMetricsExceeded\<close> and a fragment of
  \<open>q1\<close>, the second batch carries no message and another fragment of \<open>q1\<close>. Line 39
  assigns the flag of the current batch to the query at every fragment, so the second
  batch clears the flag the first one set: the query ends with the flag false, and so
  does its response.
\<close>

theorem exceeded_limit_cleared_by_later_batch:
  "(case merge [batch [''MaxMetricsExceeded''] [fragment ''q1'' ''l'' [0] [Some 1] ''PartialData''],
                batch [] [fragment ''q1'' ''l'' [60] [Some 2] ''Complete'']]
               [''q1'' \<mapsto> exampleQuery] of
      Inl e \<Rightarrow> None
    | Inr s \<Rightarrow> map_option RequestExceededMaxLimit (snd s ''q1'')) = Some False
   \<and> (case parseResponse id (\<lambda>i l. [])
               [batch [''MaxMetricsExceeded''] [fragment ''q1'' ''l'' [0] [Some 1] ''PartialData''],
                batch [] [fragment ''q1'' ''l'' [60] [Some 2] ''Complete'']]
               [''q1'' \<mapsto> exampleQuery] of
      Inl e \<Rightarrow> []
    | Inr rs \<Rightarrow> map ResponseExceededMaxLimit rs) = [False]"
  by (simp add: merge_eval format_eval)

subsection \<open>C4: fragments of one (id, label) pair are concatenated\<close>

text \<open>
  C4: when every fragment names a known query, the merge succeeds, and for every
  (id, label) pair with at least one fragment the merged entry holds the timestamps and the
  values of the pair's fragments concatenated in arrival order; its status is
  \<^verbatim>\<open>Complete\<close> if and only if one of these fragments has the status \<^verbatim>\<open>Complete\<close>.
\<close>

theorem merge_concatenates_fragments:
  assumes "list_all (\<lambda>r. qs (ResultId r) \<noteq> None) (concat (map MetricDataResults outputs))"
    and "fragments outputs ident label \<noteq> []"
  shows "\<exists>mdr qs' lr m.
           merge outputs qs = Inr (mdr, qs') \<and> map_of mdr ident = Some lr
         \<and> map_of lr label = Some m
         \<and> Timestamps m = concat (map Timestamps (fragments outputs ident label))
         \<and> Values m = concat (map Values (fragments outputs ident label))
         \<and> (StatusCode m = ''Complete'') =
             list_ex (\<lambda>f. StatusCode f = ''Complete'') (fragments outputs ident label)"
proof -
  from assms(1) have "list_all (\<lambda>r. ResultId r \<in> dom (snd ([] :: merged, qs)))
      (concat (map MetricDataResults outputs))"
    by (simp add: list_all_iff domIff)
  from mergeOutputs_total [OF this] obtain mdr qs' where m: "merge outputs qs = Inr (mdr, qs')"
    by (auto simp: merge_def)
  from assms(2) obtain f fs where fs: "fragments outputs ident label = f # fs"
    by (cases "fragments outputs ident label") auto
  from combine_Some [of f fs] obtain x where x: "combine (Some f) fs = Some x"
    and ts: "Timestamps x = Timestamps f @ concat (map Timestamps fs)"
    and vs: "Values x = Values f @ concat (map Values fs)"
    and st: "(StatusCode x = ''Complete'') =
         (StatusCode f = ''Complete'' \<or> list_ex (\<lambda>f. StatusCode f = ''Complete'') fs)"
    by blast
  from merge_lookup [OF m, of ident label] fs x have "lookupMerged mdr ident label = Some x"
    by simp
  then obtain lr where "map_of mdr ident = Some lr" and "map_of lr label = Some x"
    by (auto simp: lookupMerged_def split: option.splits)
  with m fs ts vs st show ?thesis by simp
qed

theorem merge_concatenates_fragments_witness:
  "\<exists>mdr qs' lr m.
     merge [batch [] [fragment ''q1'' ''l'' [0] [Some 1] ''PartialData''],
            batch [] [fragment ''q1'' ''k'' [0] [Some 5] ''Complete''],
            batch [] [fragment ''q1'' ''l'' [60] [Some 2] ''Complete'']]
           [''q1'' \<mapsto> exampleQuery] = Inr (mdr, qs')
   \<and> map_of mdr ''q1'' = Some lr \<and> map_of lr ''l'' = Some m
   \<and> Timestamps m = [0, 60] \<and> Values m = [Some 1, Some 2] \<and> StatusCode m = ''Complete''"
  using merge_concatenates_fragments
    [of "[''q1'' \<mapsto> exampleQuery]"
        "[batch [] [fragment ''q1'' ''l'' [0] [Some 1] ''PartialData''],
          batch [] [fragment ''q1'' ''k'' [0] [Some 5] ''Complete''],
          batch [] [fragment ''q1'' ''l'' [60] [Some 2] ''Complete'']]"
        "''q1''" "''l''"]
  by (simp add: fragments_def batch_def fragment_def)

subsection \<open>C5: the partial-data flag\<close>

text \<open>
  C5, as stated, fails: a result that arrives in two pages, the first with the status
  \<^verbatim>\<open>PartialData\<close> and the second with \<^verbatim>\<open>Complete\<close>, is merged into one entry with the
  status \<^verbatim>\<open>Complete\<close> (lines 35-37), and the flag of the query is false although one of
  its fragments is incomplete.
\<close>

theorem incomplete_fragment_without_partial_data:
  "(case parseResponse id (\<lambda>i l. []) pagedOutputs [''q1'' \<mapsto> exampleQuery] of
      Inl e \<Rightarrow> []
    | Inr rs \<Rightarrow> map PartialData rs) = [False]
   \<and> list_ex (\<lambda>f. ResultId f = ''q1'' \<and> StatusCode f \<noteq> ''Complete'')
        (concat (map MetricDataResults pagedOutputs))"
  by (simp add: pagedOutputs_def merge_eval format_eval)

text \<open>
  C5, amended: when the formatting of a query returns, its partial-data flag is true if
  and only if the query has a label none of whose fragments, over all batches, has the
  status \<^verbatim>\<open>Complete\<close>.
\<close>

theorem partial_data_per_label:
  assumes "merge outputs qs = Inr (mdr, qs')" and "map_of mdr ident = Some lr"
    and "parseGetMetricDataTimeSeries rd lr q = Inr (frames, partialData)"
  shows "partialData =
           (\<exists>label. fragments outputs ident label \<noteq> []
              \<and> \<not> list_ex (\<lambda>f. StatusCode f = ''Complete'') (fragments outputs ident label))"
proof -
  from formatLabels_result [OF assms(3) [unfolded parseGetMetricDataTimeSeries_def]]
  have "partialData = list_ex (\<lambda>l. case map_of lr l of None \<Rightarrow> False
              | Some r \<Rightarrow> StatusCode r \<noteq> ''Complete'') (sort (map fst lr))"
    by simp
  also have "\<dots> = (\<exists>l \<in> set (map fst lr). \<exists>r. map_of lr l = Some r \<and> StatusCode r \<noteq> ''Complete'')"
    by (auto simp: list_ex_iff split: option.splits)
  also have "\<dots> = (\<exists>label. fragments outputs ident label \<noteq> []
              \<and> \<not> list_ex (\<lambda>f. StatusCode f = ''Complete'') (fragments outputs ident label))"
  proof
    assume "\<exists>l \<in> set (map fst lr). \<exists>r. map_of lr l = Some r \<and> StatusCode r \<noteq> ''Complete''"
    then obtain l r where l: "l \<in> set (map fst lr)" and r: "map_of lr l = Some r"
      and st: "StatusCode r \<noteq> ''Complete''" by blast
    from l merged_labels(2) [OF assms(1,2)] have "fragments outputs ident l \<noteq> []" by blast
    moreover from st merged_status [OF assms(1,2) r]
    have "\<not> list_ex (\<lambda>f. StatusCode f = ''Complete'') (fragments outputs ident l)" by simp
    ultimately show "\<exists>label. fragments outputs ident label \<noteq> []
              \<and> \<not> list_ex (\<lambda>f. StatusCode f = ''Complete'') (fragments outputs ident label)"
      by blast
  next
    assume "\<exists>label. fragments outputs ident label \<noteq> []
              \<and> \<not> list_ex (\<lambda>f. StatusCode f = ''Complete'') (fragments outputs ident label)"
    then obtain l where ne: "fragments outputs ident l \<noteq> []"
      and st: "\<not> list_ex (\<lambda>f. StatusCode f = ''Complete'') (fragments outputs ident l)" by blast
    from ne merged_labels(2) [OF assms(1,2)] have l: "l \<in> set (map fst lr)" by blast
    then obtain r where r: "map_of lr l = Some r"
      by (metis map_of_eq_None_iff not_Some_eq set_map)
    with st merged_status [OF assms(1,2) r] l
    show "\<exists>l \<in> set (map fst lr). \<exists>r. map_of lr l = Some r \<and> StatusCode r \<noteq> ''Complete''"
      by blast
  qed
  finally show ?thesis .
qed

theorem partial_data_per_label_witness:
  "\<exists>label. fragments (pagedOutputs @ [batch [] [fragment ''q1'' ''k'' [0] [Some 5] ''PartialData'']])
              ''q1'' label \<noteq> []
     \<and> \<not> list_ex (\<lambda>f. StatusCode f = ''Complete'')
           (fragments (pagedOutputs @ [batch [] [fragment ''q1'' ''k'' [0] [Some 5] ''PartialData'']])
              ''q1'' label)"
proof -
  let ?outs = "pagedOutputs @ [batch [] [fragment ''q1'' ''k'' [0] [Some 5] ''PartialData'']]"
  let ?lr = "[(''l'', fragment ''q1'' ''l'' [0, 60] [Some 1, Some 2] ''Complete''),
              (''k'', fragment ''q1'' ''k'' [0] [Some 5] ''PartialData'')]"
  have "\<exists>qs'. merge ?outs [''q1'' \<mapsto> exampleQuery] = Inr ([(''q1'', ?lr)], qs')"
    by (simp add: pagedOutputs_def merge_eval)
  then obtain qs' where m: "merge ?outs [''q1'' \<mapsto> exampleQuery] = Inr ([(''q1'', ?lr)], qs')" ..
  have l: "map_of [(''q1'', ?lr)] ''q1'' = Some ?lr" by simp
  have "\<exists>frames. parseGetMetricDataTimeSeries (\<lambda>l. []) ?lr exampleQuery = Inr (frames, True)"
    by (simp add: merge_eval format_eval)
  then obtain frames where
    p: "parseGetMetricDataTimeSeries (\<lambda>l. []) ?lr exampleQuery = Inr (frames, True)" ..
  from partial_data_per_label [OF m l p] show ?thesis by simp
qed

subsection \<open>C6: gap filling\<close>



subsection \<open>C7: empty frames for a multi-valued dimension without data\<close>

text \<open>
  C7, as stated, fails for the tags: line 108 tags every other dimension that has at least
  one value with its first value, not only the dimensions with exactly one value. With the
  dimensions \<open>a\<close> (three values) and \<open>b\<close> (two values), each of the three empty frames
  carries \<open>b = p\<close>, which the tags of the claim leave out.
\<close>

theorem other_dimension_with_two_values_is_tagged:
  "(case labelFrames [(''a'', [''x'', ''y'', ''z'']), (''b'', [''p'', ''q''])]
           (fanOutQuery\<lparr>Dimensions := [(''a'', [''x'', ''y'', ''z'']), (''b'', [''p'', ''q''])]\<rparr>)
           ''l'' (fragment ''q1'' ''l'' [] [] ''Complete'') of
      Inl e \<Rightarrow> []
    | Inr frames \<Rightarrow> map (\<lambda>f. (Tags f ''a'', Tags f ''b'')) frames)
   = [(Some ''x'', Some ''p''), (Some ''y'', Some ''p''), (Some ''z'', Some ''p'')]
   \<and> map (\<lambda>v. claimedFanOutTags [(''a'', [''x'', ''y'', ''z'']), (''b'', [''p'', ''q''])] ''a'' v ''b'')
         [''x'', ''y'', ''z'']
     = [None, None, None]"
  by (simp add: fanOutQuery_def merge_eval format_eval claimedFanOutTags_def)

text \<open>
  C7, amended: for a query classified multi-valued and a merged result with no values (and
  no fatal message), one label contributes exactly one empty frame, without fields, per
  candidate value of the chosen dimension, which has the most candidate values; each frame is
  tagged with that dimension set to its candidate value and, for every other dimension
  with at least one candidate, that dimension's first value. The dimensions are a Go map
  (distinct keys), visited in any order; the name of a user-defined search expression needs a
  comma in the expression. The witness is the scenario of the specification.
\<close>

theorem empty_frames_per_candidate:
  assumes "isMultiValuedDimensionExpression q" and "Values r = []"
    and "find (\<lambda>m. Code m = ''ArithmeticError'') (Messages r) = None"
    and "distinct (map fst (Dimensions q))" and "set entries = set (Dimensions q)"
    and "isUserDefinedSearchExpression q \<longrightarrow> CHR '','' \<in> set (Expression q)"
  shows "\<exists>frames.
           labelFrames entries q label r = Inr frames
         \<and> list_all (\<lambda>(k, vs). length vs
               \<le> length (candidates (Dimensions q) (multiValuedDimension entries))) (Dimensions q)
         \<and> map Tags frames
             = map (fanOutTags (Dimensions q) (multiValuedDimension entries))
                 (candidates (Dimensions q) (multiValuedDimension entries))
         \<and> map Fields frames
             = map (\<lambda>v. None) (candidates (Dimensions q) (multiValuedDimension entries))"
proof -
  let ?d = "multiValuedDimension entries"
  from emptyFrames_ok [OF assms(6), of label ?d "candidates (Dimensions q) ?d"]
  obtain frames where "emptyFrames q label ?d (candidates (Dimensions q) ?d) = Inr frames"
    and "map Tags frames = map (emptyFrameTags (Dimensions q) ?d) (candidates (Dimensions q) ?d)"
    and "map Fields frames = map (\<lambda>v. None) (candidates (Dimensions q) ?d)"
    by blast
  moreover have "emptyFrameTags (Dimensions q) ?d = fanOutTags (Dimensions q) ?d"
    by (rule ext) (simp add: emptyFrameTags_eq [OF assms(4)])
  moreover have "labelFrames entries q label r
      = emptyFrames q label ?d (candidates (Dimensions q) ?d)"
    using assms(1-3) by (simp add: labelFrames_def candidates_def Let_def)
  ultimately show ?thesis
    using multiValuedDimension_max [OF assms(4,5)] by simp
qed

theorem empty_frames_per_candidate_witness:
  "\<exists>frames.
     labelFrames (Dimensions fanOutQuery) fanOutQuery ''l'' (fragment ''q1'' ''l'' [] [] ''Complete'')
       = Inr frames
   \<and> map Tags frames = [[''dim1'' \<mapsto> ''val1''], [''dim1'' \<mapsto> ''val2'']]
   \<and> map Fields frames = [None, None]"
proof -
  have tags: "fanOutTags [(''dim1'', [''val1'', ''val2''])] ''dim1'' v = [''dim1'' \<mapsto> v]" for v
    by (rule ext) (simp add: fanOutTags_def)
  show ?thesis
    using empty_frames_per_candidate
      [of fanOutQuery "fragment ''q1'' ''l'' [] [] ''Complete''" "Dimensions fanOutQuery" "''l''"]
    by (simp add: fanOutQuery_def exampleQuery_def fragment_def multiValuedDimension_def
          candidates_def tags)
qed

subsection \<open>C8: the alias template\<close>



subsection \<open>C9: the order of the frames\<close>

text \<open>
  C9, as stated, fails: the merge appends the samples of a label in arrival order and
  nothing sorts them afterwards, so two batches with fragments of the same label give
  another frame when they arrive in the other order.
\<close>

theorem permuted_batches_change_output:
  "parseResponse id (\<lambda>i l. [])
     [batch [] [fragment ''q1'' ''l'' [0] [Some 1] ''Complete''],
      batch [] [fragment ''q1'' ''l'' [60] [Some 2] ''Complete'']] [''q1'' \<mapsto> exampleQuery]
   \<noteq> parseResponse id (\<lambda>i l. [])
     [batch [] [fragment ''q1'' ''l'' [60] [Some 2] ''Complete''],
      batch [] [fragment ''q1'' ''l'' [0] [Some 1] ''Complete'']] [''q1'' \<mapsto> exampleQuery]"
  by (simp add: merge_eval format_eval)

text \<open>
  C9, amended: for a fixed query the frames are emitted label by label in the
  lexicographically sorted order of the labels, each label contributing the frames of its
  merged result; and the sequence of labels visited is the same after any permutation of
  the batches. (The content of the frames follows the arrival order.)
\<close>

theorem frames_follow_sorted_labels:
  assumes "merge outputs qs = Inr (mdr, qs1)" and "merge outputs' qs = Inr (mdr', qs2)"
    and "mset outputs' = mset outputs" and "map_of mdr ident = Some lr"
    and "parseGetMetricDataTimeSeries rd lr q = Inr (frames, partialData)"
  shows "\<exists>lr' groups.
           map_of mdr' ident = Some lr'
         \<and> sort (map fst lr') = sort (map fst lr)
         \<and> sorted (sort (map fst lr)) \<and> distinct (sort (map fst lr))
         \<and> list_all2 (\<lambda>l g. \<exists>r. map_of lr l = Some r \<and> labelFrames (rd l) q l r = Inr g)
              (sort (map fst lr)) groups
         \<and> frames = concat groups"
proof -
  from assms(3) have so: "set outputs' = set outputs" by (rule mset_eq_setD)
  then have same: "set (concat (map MetricDataResults outputs'))
      = set (concat (map MetricDataResults outputs))" by simp
  from assms(4) have "ident \<in> fst ` set mdr"
    by (metis map_of_eq_None_iff option.distinct(1))
  with merge_invariant(2) [OF assms(1)] merge_invariant(2) [OF assms(2)] same
  have "ident \<in> fst ` set mdr'" by simp
  then obtain lr' where lr': "map_of mdr' ident = Some lr'"
    by (metis map_of_eq_None_iff not_Some_eq)
  have "set (map fst lr') = set (map fst lr)"
    unfolding merged_labels(2) [OF assms(1,4)] merged_labels(2) [OF assms(2) lr']
    by (simp add: fragments_nonempty so)
  with merged_labels(1) [OF assms(1,4)] merged_labels(1) [OF assms(2) lr']
  have s: "sort (map fst lr') = sort (map fst lr)"
    by (intro sort_eq_of_set_eq)
  from formatLabels_result [OF assms(5) [unfolded parseGetMetricDataTimeSeries_def]]
  obtain groups where
    "list_all2 (\<lambda>l g. \<exists>r. map_of lr l = Some r \<and> labelFrames (rd l) q l r = Inr g)
        (sort (map fst lr)) groups" and "frames = concat groups"
    by auto
  with lr' s merged_labels(1) [OF assms(1,4)] show ?thesis by auto
qed

theorem frames_follow_sorted_labels_witness:
  "\<exists>lr' groups.
     map_of [(''q1'', [(''a'', fragment ''q1'' ''a'' [60] [Some 2] ''Complete''),
                      (''b'', fragment ''q1'' ''b'' [0] [Some 1] ''Complete'')])] ''q1'' = Some lr'
   \<and> sort (map fst lr') = [''a'', ''b'']
   \<and> list_all2 (\<lambda>l g. \<exists>r. map_of [(''b'', fragment ''q1'' ''b'' [0] [Some 1] ''Complete''),
                                      (''a'', fragment ''q1'' ''a'' [60] [Some 2] ''Complete'')] l = Some r
                           \<and> labelFrames [] exampleQuery l r = Inr g)
        [''a'', ''b''] groups
   \<and> map Fields (concat groups) = [Some ([60000], [Some 2]), Some ([0], [Some 1])]"
proof -
  let ?b = "batch [] [fragment ''q1'' ''b'' [0] [Some 1] ''Complete'']"
  let ?a = "batch [] [fragment ''q1'' ''a'' [60] [Some 2] ''Complete'']"
  let ?lr = "[(''b'', fragment ''q1'' ''b'' [0] [Some 1] ''Complete''),
              (''a'', fragment ''q1'' ''a'' [60] [Some 2] ''Complete'')]"
  let ?lr' = "[(''a'', fragment ''q1'' ''a'' [60] [Some 2] ''Complete''),
               (''b'', fragment ''q1'' ''b'' [0] [Some 1] ''Complete'')]"
  have "\<exists>qs'. merge [?b, ?a] [''q1'' \<mapsto> exampleQuery] = Inr ([(''q1'', ?lr)], qs')"
    by (simp add: merge_eval)
  then obtain qs1 where m1: "merge [?b, ?a] [''q1'' \<mapsto> exampleQuery] = Inr ([(''q1'', ?lr)], qs1)" ..
  have "\<exists>qs'. merge [?a, ?b] [''q1'' \<mapsto> exampleQuery] = Inr ([(''q1'', ?lr')], qs')"
    by (simp add: merge_eval)
  then obtain qs2 where m2: "merge [?a, ?b] [''q1'' \<mapsto> exampleQuery] = Inr ([(''q1'', ?lr')], qs2)" ..
  have p: "mset [?a, ?b] = mset [?b, ?a]" by simp
  have l: "map_of [(''q1'', ?lr)] ''q1'' = Some ?lr" by simp
  have "\<exists>frames. parseGetMetricDataTimeSeries (\<lambda>l. []) ?lr exampleQuery = Inr (frames, False)
          \<and> map Fields frames = [Some ([60000], [Some 2]), Some ([0], [Some 1])]"
    by (simp add: merge_eval format_eval)
  then obtain frames where
    ffs: "parseGetMetricDataTimeSeries (\<lambda>l. []) ?lr exampleQuery = Inr (frames, False)
          \<and> map Fields frames = [Some ([60000], [Some 2]), Some ([0], [Some 1])]" ..
  note f = ffs [THEN conjunct1] and fs = ffs [THEN conjunct2]
  have srt: "sort (map fst ?lr) = [''a'', ''b'']"
    by (simp add: list_less_def list_le_def)
  from frames_follow_sorted_labels [OF m1 m2 p l f] fs show ?thesis
    unfolding srt by auto
qed

subsection \<open>C10: a sample without a value\<close>

text \<open>
  C10 at a failing input: the merged result has the timestamps 0 and 60 and the values 1
  and nil. The debug log on line 161 dereferences every sample before it is appended, so
  the nil sample is a nil dereference and the formatting panics; no frame is returned.
\<close>

theorem null_sample_panics:
  "parseGetMetricDataTimeSeries (\<lambda>l. [])
     [(''l'', fragment ''q1'' ''l'' [0, 60] [Some 1, None] ''Complete'')] exampleQuery
   = Inl (Panic NilPointerDereference)"
  by (simp add: merge_eval format_eval)

end
